theory Spec2Isabelle
  imports Complex_Main
begin

section \<open>The PPK2 power supply driver (meshtastic/powermon/ppk2.py)\<close>

text \<open>
  The class \<^verbatim>\<open>PPK2PowerSupply\<close> talks to a Nordic Power Profiler Kit II through the
  external library \<^verbatim>\<open>ppk2_api\<close>. A background thread polls the device and appends the
  decoded current samples (microamperes, Python floats) to the list
  \<^verbatim>\<open>current_measurements\<close>; the caller reads minimum, maximum and average in
  milliamperes, resets the list, switches the device mode and closes the session.

  The embedding follows the class method by method. The device library is outside the
  class: what it returns (the list of devices, the polled chunks, the decoded samples)
  is an argument of the model, and every call made to it is recorded in a list of
  effects, in program order. Exceptions are values of the type \<open>error\<close>.
\<close>

subsection \<open>Python floats\<close>

text \<open>
  Samples and results are Python floats, that is IEEE 754 binary64 numbers. A finite
  double is modelled by the real number it denotes; \<open>round_to_double\<close> is the rounding
  every arithmetic operation ends with (to nearest, ties to even): 53 significant bits,
  unit in the last place never below \<open>2 powi - 1074\<close> (gradual underflow), a result
  of magnitude \<open>2 ^ 1024\<close> or more becomes an infinity. The sign of a zero is not
  modelled: no operation used by the class can observe it. A sample is a finite
  reading, so the buffer holds reals and not-a-number never arises: the class only adds
  samples to an accumulator, divides by a positive count or by 1000, and multiplies by
  1000.
\<close>

definition round_half_even :: "real \<Rightarrow> int" where
  "round_half_even q =
     (let f = \<lfloor>q\<rfloor>; d = q - of_int f
      in if d < 1 / 2 then f else if 1 / 2 < d then f + 1 else if even f then f else f + 1)"

text \<open>
  The exponent of the unit in the last place of a magnitude \<open>a\<close>: the least \<open>e\<close> from
  \<open>- 1074\<close> on with \<open>a < 2 powi (e + 53)\<close>, and at most 971, the exponent of the
  largest doubles.
\<close>

function ulp_exponent_from :: "real \<Rightarrow> int \<Rightarrow> int" where
  "ulp_exponent_from a e =
     (if 971 \<le> e \<or> a < 2 powi (e + 53) then e else ulp_exponent_from a (e + 1))"
  by pat_completeness auto
termination
  by (relation "measure (\<lambda>(a, e). nat (971 - e))") auto

declare ulp_exponent_from.simps [simp del]

definition ulp_exponent :: "real \<Rightarrow> int" where
  "ulp_exponent x = ulp_exponent_from \<bar>x\<bar> (- 1074)"

definition round_magnitude :: "real \<Rightarrow> real" where
  "round_magnitude a =
     (let e = ulp_exponent a in of_int (round_half_even (a / 2 powi e)) * 2 powi e)"

datatype pyfloat = Fin real | PInf | NInf

definition round_to_double :: "real \<Rightarrow> pyfloat" where
  "round_to_double x =
     (let m = round_magnitude \<bar>x\<bar>
      in if 2 ^ 1024 \<le> m then (if 0 < x then PInf else NInf)
         else Fin (if 0 \<le> x then m else - m))"

definition is_double :: "real \<Rightarrow> bool" where
  "is_double x \<longleftrightarrow> round_to_double x = Fin x"

text \<open>Python's \<^verbatim>\<open><=\<close> on floats.\<close>

fun float_le :: "pyfloat \<Rightarrow> pyfloat \<Rightarrow> bool" where
  "float_le NInf _ = True"
| "float_le _ PInf = True"
| "float_le (Fin x) (Fin y) = (x \<le> y)"
| "float_le _ _ = False"

subsection \<open>Exceptions and Python built-ins\<close>

datatype error =
    PowerError string
  | ValueError
  | ZeroDivisionError
  | IndexError
  | OverflowError
  | DriverError string

text \<open>\<^verbatim>\<open>acc + x\<close> for a float accumulator and a finite float.\<close>

definition float_add :: "pyfloat \<Rightarrow> real \<Rightarrow> pyfloat" where
  "float_add a y = (case a of Fin x \<Rightarrow> round_to_double (x + y) | PInf \<Rightarrow> PInf | NInf \<Rightarrow> NInf)"

text \<open>IEEE division of a float by a finite divisor other than zero.\<close>

definition float_div :: "pyfloat \<Rightarrow> real \<Rightarrow> pyfloat" where
  "float_div a d =
     (case a of
        Fin x \<Rightarrow> round_to_double (x / d)
      | PInf \<Rightarrow> if 0 < d then PInf else NInf
      | NInf \<Rightarrow> if 0 < d then NInf else PInf)"

text \<open>\<^verbatim>\<open>a / d\<close>: Python raises on a zero divisor.\<close>

definition float_truediv :: "pyfloat \<Rightarrow> real \<Rightarrow> error + pyfloat" where
  "float_truediv a d = (if d = 0 then Inl ZeroDivisionError else Inr (float_div a d))"

definition float_mul :: "real \<Rightarrow> real \<Rightarrow> pyfloat" where
  "float_mul x y = round_to_double (x * y)"

text \<open>The conversion of an \<^verbatim>\<open>int\<close> operand to float that mixed arithmetic performs.\<close>

definition float_of_int :: "int \<Rightarrow> error + real" where
  "float_of_int n = (case round_to_double (of_int n) of Fin x \<Rightarrow> Inr x | _ \<Rightarrow> Inl OverflowError)"

text \<open>\<^verbatim>\<open>int(x)\<close> of a float: the fraction is dropped; an infinity raises.\<close>

definition py_int :: "pyfloat \<Rightarrow> error + int" where
  "py_int a = (case a of Fin x \<Rightarrow> Inr (if 0 \<le> x then \<lfloor>x\<rfloor> else \<lceil>x\<rceil>) | _ \<Rightarrow> Inl OverflowError)"

text \<open>
  \<^verbatim>\<open>min\<close> and \<^verbatim>\<open>max\<close> of a list: \<^verbatim>\<open>ValueError\<close> on the empty list, otherwise a scan
  that keeps the first extremal item. \<open>py_sum\<close> is the \<^verbatim>\<open>sum\<close> of CPython up to 3.11:
  it adds from the left, starting at 0, and rounds after each addition. From 3.12 on
  \<^verbatim>\<open>sum\<close> carries a compensation term for floats and can return another double
  (1.0 and not 0.0 for \<open>[1e16, 1.0, - 1e16]\<close>). So nothing below is stated about the
  sum of an arbitrary buffer: the average is characterised only where the plain sum is
  exact, and the sums that are evaluated, of three tenths and of 1000, 2000 and 3000,
  are the same doubles under both.
\<close>

fun py_min :: "real list \<Rightarrow> error + real" where
  "py_min [] = Inl ValueError"
| "py_min (x # xs) = Inr (foldl (\<lambda>m item. if item < m then item else m) x xs)"

fun py_max :: "real list \<Rightarrow> error + real" where
  "py_max [] = Inl ValueError"
| "py_max (x # xs) = Inr (foldl (\<lambda>m item. if m < item then item else m) x xs)"

definition py_sum :: "real list \<Rightarrow> pyfloat" where
  "py_sum xs = foldl float_add (Fin 0) xs"

text \<open>\<^verbatim>\<open>xs[i]\<close>: a negative index counts from the end; out of range raises.\<close>

definition py_getitem :: "'a list \<Rightarrow> int \<Rightarrow> error + 'a" where
  "py_getitem xs i =
     (if 0 \<le> i \<and> i < int (length xs) then Inr (xs ! nat i)
      else if i < 0 \<and> - int (length xs) \<le> i then Inr (xs ! nat (int (length xs) + i))
      else Inl IndexError)"

subsection \<open>Effects and the object\<close>

type_synonym bytes = string

text \<open>
  One constructor per call that leaves the class: the methods of \<^verbatim>\<open>ppk2_api\<close>, the
  thread, the logger, the sleep and the two calls to the base class.
\<close>

datatype effect =
    List_devices
  | PPK2_MP string
  | Get_modifiers
  | Start_measuring
  | Stop_measuring
  | Get_data
  | Get_samples bytes
  | Set_source_voltage int
  | Use_ampere_meter
  | Use_source_meter
  | Toggle_DUT_power string
  | Thread_start
  | Thread_join
  | Logging_info string
  | Sleep
  | Super_init
  | Super_close

datatype thread_state = Alive | Exited | Died error

text \<open>
  The fields the class assigns. \<open>r\<close> is the device handle, named by the port it was
  opened on. The field \<^verbatim>\<open>v\<close> that \<^verbatim>\<open>setIsSupply\<close> reads belongs to the base class
  \<^verbatim>\<open>PowerSupply\<close>, which is not part of this file: its value is an argument there.
\<close>

record PPK2PowerSupply =
  r :: string
  current_measurements :: "real list"
  measuring :: bool
  measurement_thread :: thread_state

text \<open>What \<^verbatim>\<open>ppk2_api\<close>'s \<^verbatim>\<open>get_samples\<close> answers for a chunk: the samples and a second component, or an exception.\<close>

type_synonym decoder = "bytes \<Rightarrow> error + real list \<times> bytes"

subsection \<open>The constructor\<close>

text \<open>
  \<^verbatim>\<open>__init__(portName)\<close>, with \<open>devs\<close> the answer of \<^verbatim>\<open>list_devices()\<close>. \<^verbatim>\<open>not portName\<close>
  holds for \<^verbatim>\<open>None\<close> and for the empty string. Lines 34 to 48 are \<open>connect\<close>.
\<close>

definition connect :: "string \<Rightarrow> effect list \<times> PPK2PowerSupply" where
  "connect portName =
     ([PPK2_MP portName, Get_modifiers, Start_measuring, Thread_start,
       Logging_info ''Connected to Power Profiler Kit II (PPK2)'', Super_init],
      \<lparr>r = portName, current_measurements = [0], measuring = True,
       measurement_thread = Alive\<rparr>)"

definition init :: "string option \<Rightarrow> string list \<Rightarrow> effect list \<times> (error + PPK2PowerSupply)" where
  "init portName devs =
     (if portName = None \<or> portName = Some [] then
        (if devs = [] then
           ([List_devices], Inl (PowerError ''No PPK2 devices found''))
         else if 1 < length devs then
           ([List_devices],
            Inl (PowerError ''Multiple PPK2 devices found, please specify the portName''))
         else
           (List_devices # fst (connect (devs ! 0)), Inr (snd (connect (devs ! 0)))))
      else (fst (connect (the portName)), Inr (snd (connect (the portName)))))"

subsection \<open>The measurement loop\<close>

text \<open>
  The body of the \<^verbatim>\<open>while\<close> loop, for the chunk \<open>read_data\<close> that \<^verbatim>\<open>get_data()\<close> returned.
  The source has no \<^verbatim>\<open>try\<close>: an exception of \<^verbatim>\<open>get_samples\<close> leaves the body at once.
\<close>

definition loop_body :: "decoder \<Rightarrow> bytes \<Rightarrow> PPK2PowerSupply \<Rightarrow> effect list \<times> (error + PPK2PowerSupply)" where
  "loop_body get_samples read_data s =
     (if read_data \<noteq> [] then
        (case get_samples read_data of
           Inl e \<Rightarrow> ([Get_data, Get_samples read_data], Inl e)
         | Inr (samples, _) \<Rightarrow>
             ([Get_data, Get_samples read_data, Sleep],
              Inr (s\<lparr>current_measurements := current_measurements s @ samples\<rparr>)))
      else ([Get_data, Sleep], Inr s))"

text \<open>
  The loop runs in its own thread for as long as \<^verbatim>\<open>measuring\<close> is set, which only
  another thread can change. It is run here over the chunks of the polls that follow:
  it has \<open>Returned\<close> when it found the flag cleared, it has \<open>Raised\<close> when an exception
  left it (the thread is dead), and it is still \<open>Polling\<close> when the given polls are
  used up.
\<close>

datatype loop_outcome =
    Returned PPK2PowerSupply
  | Raised error PPK2PowerSupply
  | Polling PPK2PowerSupply

fun measurement_loop :: "decoder \<Rightarrow> bytes list \<Rightarrow> PPK2PowerSupply \<Rightarrow> effect list \<times> loop_outcome" where
  "measurement_loop get_samples [] s =
     (if measuring s then ([], Polling s) else ([], Returned s))"
| "measurement_loop get_samples (read_data # polls) s =
     (if measuring s then
        (case loop_body get_samples read_data s of
           (es, Inl e) \<Rightarrow> (es, Raised e s)
         | (es, Inr s') \<Rightarrow>
             (case measurement_loop get_samples polls s' of (es', out) \<Rightarrow> (es @ es', out)))
      else ([], Returned s))"

subsection \<open>Statistics and reset\<close>

definition get_min_current_mA :: "PPK2PowerSupply \<Rightarrow> error + pyfloat" where
  "get_min_current_mA s =
     (case py_min (current_measurements s) of
        Inl e \<Rightarrow> Inl e
      | Inr m \<Rightarrow> float_truediv (Fin m) 1000)"

definition get_max_current_mA :: "PPK2PowerSupply \<Rightarrow> error + pyfloat" where
  "get_max_current_mA s =
     (case py_max (current_measurements s) of
        Inl e \<Rightarrow> Inl e
      | Inr m \<Rightarrow> float_truediv (Fin m) 1000)"

definition get_average_current_mA :: "PPK2PowerSupply \<Rightarrow> error + pyfloat" where
  "get_average_current_mA s =
     (case float_of_int (int (length (current_measurements s))) of
        Inl e \<Rightarrow> Inl e
      | Inr n \<Rightarrow>
          (case float_truediv (py_sum (current_measurements s)) n of
             Inl e \<Rightarrow> Inl e
           | Inr a \<Rightarrow> float_truediv a 1000))"

definition reset_measurements :: "PPK2PowerSupply \<Rightarrow> error + PPK2PowerSupply" where
  "reset_measurements s =
     (case py_getitem (current_measurements s) (- 1) of
        Inl e \<Rightarrow> Inl e
      | Inr x \<Rightarrow> Inr (s\<lparr>current_measurements := [x]\<rparr>))"

subsection \<open>Closing and the device mode\<close>

text \<open>
  \<^verbatim>\<open>close\<close> clears the flag, stops the device, joins the thread and calls the base
  class. The join returns once the thread is dead; a live loop leaves at its next test
  of the flag, and an iteration it was in counts as one that came before the call.
\<close>

definition close :: "PPK2PowerSupply \<Rightarrow> effect list \<times> PPK2PowerSupply" where
  "close s =
     ([Stop_measuring, Thread_join, Super_close],
      s\<lparr>measuring := False,
        measurement_thread :=
          (if measurement_thread s = Alive then Exited else measurement_thread s)\<rparr>)"

text \<open>\<^verbatim>\<open>setIsSupply(s)\<close>; \<open>v\<close> is the base class's field \<^verbatim>\<open>self.v\<close>, in volts.\<close>

definition setIsSupply :: "real \<Rightarrow> bool \<Rightarrow> PPK2PowerSupply \<Rightarrow> effect list \<times> (error + PPK2PowerSupply)" where
  "setIsSupply v is_supply s =
     (case py_int (float_mul v 1000) of
        Inl e \<Rightarrow> ([], Inl e)
      | Inr mv \<Rightarrow>
          ([Set_source_voltage mv,
            if \<not> is_supply then Use_ampere_meter else Use_source_meter], Inr s))"

definition powerOn :: "PPK2PowerSupply \<Rightarrow> effect list \<times> PPK2PowerSupply" where
  "powerOn s = ([Toggle_DUT_power ''ON''], s)"

definition powerOff :: "PPK2PowerSupply \<Rightarrow> effect list \<times> PPK2PowerSupply" where
  "powerOff s = ([Toggle_DUT_power ''OFF''], s)"

subsection \<open>The object over time\<close>

text \<open>
  What can happen to an open object: the loop thread runs one iteration, or the caller
  invokes a method. A method that raises leaves the fields as they were. Each event is
  taken as one step; the list of events is one interleaving of the two threads.
\<close>

datatype event =
    Loop_iteration bytes
  | Call_get_min
  | Call_get_max
  | Call_get_average
  | Call_reset
  | Call_close
  | Call_setIsSupply real bool
  | Call_powerOn
  | Call_powerOff

fun step :: "decoder \<Rightarrow> PPK2PowerSupply \<Rightarrow> event \<Rightarrow> PPK2PowerSupply" where
  "step get_samples s (Loop_iteration read_data) =
     (if measurement_thread s = Alive then
        (case snd (measurement_loop get_samples [read_data] s) of
           Returned s' \<Rightarrow> s'\<lparr>measurement_thread := Exited\<rparr>
         | Raised e s' \<Rightarrow> s'\<lparr>measurement_thread := Died e\<rparr>
         | Polling s' \<Rightarrow> s')
      else s)"
| "step get_samples s Call_get_min = s"
| "step get_samples s Call_get_max = s"
| "step get_samples s Call_get_average = s"
| "step get_samples s Call_reset =
     (case reset_measurements s of Inl e \<Rightarrow> s | Inr s' \<Rightarrow> s')"
| "step get_samples s Call_close = snd (close s)"
| "step get_samples s (Call_setIsSupply v is_supply) =
     (case snd (setIsSupply v is_supply s) of Inl e \<Rightarrow> s | Inr s' \<Rightarrow> s')"
| "step get_samples s Call_powerOn = snd (powerOn s)"
| "step get_samples s Call_powerOff = snd (powerOff s)"

definition run :: "decoder \<Rightarrow> PPK2PowerSupply \<Rightarrow> event list \<Rightarrow> PPK2PowerSupply" where
  "run get_samples s events = foldl (step get_samples) s events"

text \<open>
  The order required of the commands of a mode switch: no mode command before the
  first \<^verbatim>\<open>set_source_voltage\<close>.
\<close>

fun voltage_before_mode :: "effect list \<Rightarrow> bool" where
  "voltage_before_mode [] = True"
| "voltage_before_mode (Set_source_voltage mv # es) = True"
| "voltage_before_mode (Use_ampere_meter # es) = False"
| "voltage_before_mode (Use_source_meter # es) = False"
| "voltage_before_mode (_ # es) = voltage_before_mode es"

text \<open>A stub decoder that fails on every chunk, and one that yields one sample per chunk.\<close>

definition failing_decoder :: decoder where
  "failing_decoder read_data = Inl (DriverError ''malformed chunk'')"

definition unit_decoder :: decoder where
  "unit_decoder read_data = Inr ([1500], [])"

text \<open>An open object whose buffer holds \<open>xs\<close>, for the examples.\<close>

definition supply_with :: "real list \<Rightarrow> PPK2PowerSupply" where
  "supply_with xs =
     \<lparr>r = ''/dev/ttyACM0'', current_measurements = xs, measuring = True,
      measurement_thread = Alive\<rparr>"

text \<open>The arithmetic mean of the specification, in exact arithmetic.\<close>

definition mean :: "real list \<Rightarrow> real" where
  "mean xs = sum_list xs / real (length xs)"

section \<open>Properties of the rounding\<close>

lemma round_half_even_of_int: "round_half_even (of_int k) = k"
  by (simp add: round_half_even_def)

lemma round_half_even_bounds:
  "\<lfloor>q\<rfloor> \<le> round_half_even q \<and> round_half_even q \<le> \<lfloor>q\<rfloor> + 1"
  by (simp add: round_half_even_def Let_def)

lemma round_half_even_mono:
  assumes "p \<le> q"
  shows "round_half_even p \<le> round_half_even q"
proof (cases "\<lfloor>p\<rfloor> = \<lfloor>q\<rfloor>")
  case True
  with assms show ?thesis
    by (auto simp: round_half_even_def Let_def)
next
  case False
  with assms have "\<lfloor>p\<rfloor> + 1 \<le> \<lfloor>q\<rfloor>"
    using floor_mono [of p q] by linarith
  with round_half_even_bounds [of p] round_half_even_bounds [of q]
  show ?thesis by linarith
qed

text \<open>The search for the exponent: its range, and the two bounds that determine it.\<close>

lemma ulp_exponent_from_range:
  "e \<le> 971 \<Longrightarrow> e \<le> ulp_exponent_from a e \<and> ulp_exponent_from a e \<le> 971"
proof (induction a e rule: ulp_exponent_from.induct)
  case (1 a e)
  show ?case
  proof (cases "971 \<le> e \<or> a < 2 powi (e + 53)")
    case True
    with "1.prems" show ?thesis
      by (simp add: ulp_exponent_from.simps [of a e])
  next
    case False
    with "1.IH" have "e + 1 \<le> ulp_exponent_from a (e + 1) \<and> ulp_exponent_from a (e + 1) \<le> 971"
      by simp
    with False show ?thesis
      by (simp add: ulp_exponent_from.simps [of a e])
  qed
qed

lemma ulp_exponent_from_upper:
  "e \<le> 971 \<Longrightarrow> ulp_exponent_from a e < 971 \<Longrightarrow> a < 2 powi (ulp_exponent_from a e + 53)"
proof (induction a e rule: ulp_exponent_from.induct)
  case (1 a e)
  show ?case
  proof (cases "971 \<le> e \<or> a < 2 powi (e + 53)")
    case True
    with "1.prems" show ?thesis
      by (auto simp: ulp_exponent_from.simps [of a e])
  next
    case False
    then have eq: "ulp_exponent_from a e = ulp_exponent_from a (e + 1)"
      by (simp add: ulp_exponent_from.simps [of a e])
    from False "1.prems" "1.IH" show ?thesis
      unfolding eq by simp
  qed
qed

lemma ulp_exponent_from_lower:
  "e \<le> 971 \<Longrightarrow> e < ulp_exponent_from a e \<Longrightarrow> 2 powi (ulp_exponent_from a e + 52) \<le> a"
proof (induction a e rule: ulp_exponent_from.induct)
  case (1 a e)
  show ?case
  proof (cases "971 \<le> e \<or> a < 2 powi (e + 53)")
    case True
    with "1.prems" show ?thesis
      by (simp add: ulp_exponent_from.simps [of a e])
  next
    case False
    then have eq: "ulp_exponent_from a e = ulp_exponent_from a (e + 1)"
      by (simp add: ulp_exponent_from.simps [of a e])
    from False have le: "e + 1 \<le> 971" by simp
    show ?thesis
    proof (cases "e + 1 < ulp_exponent_from a (e + 1)")
      case True
      with False le "1.IH" show ?thesis
        unfolding eq by simp
    next
      case stop: False
      with ulp_exponent_from_range [OF le, of a]
      have "ulp_exponent_from a (e + 1) = e + 1" by simp
      moreover from False have "2 powi (e + 53) \<le> a" by simp
      ultimately show ?thesis
        unfolding eq by (simp add: add.commute add.left_commute)
    qed
  qed
qed

lemma ulp_exponent_from_least:
  "e0 \<le> e \<Longrightarrow> 971 \<le> e \<or> a < 2 powi (e + 53) \<Longrightarrow> ulp_exponent_from a e0 \<le> e"
proof (induction a e0 rule: ulp_exponent_from.induct)
  case (1 a e0)
  show ?case
  proof (cases "971 \<le> e0 \<or> a < 2 powi (e0 + 53)")
    case True
    with "1.prems" show ?thesis
      by (simp add: ulp_exponent_from.simps [of a e0])
  next
    case False
    with "1.prems" have "e0 \<noteq> e" by auto
    with "1.prems" have "e0 + 1 \<le> e" by simp
    with False "1.IH" "1.prems" show ?thesis
      by (simp add: ulp_exponent_from.simps [of a e0])
  qed
qed

lemma ulp_exponent_range: "- 1074 \<le> ulp_exponent x \<and> ulp_exponent x \<le> 971"
  unfolding ulp_exponent_def using ulp_exponent_from_range [of "- 1074" "\<bar>x\<bar>"] by simp

lemma ulp_exponent_upper: "ulp_exponent x < 971 \<Longrightarrow> \<bar>x\<bar> < 2 powi (ulp_exponent x + 53)"
  unfolding ulp_exponent_def using ulp_exponent_from_upper [of "- 1074" "\<bar>x\<bar>"] by simp

lemma ulp_exponent_lower: "- 1074 < ulp_exponent x \<Longrightarrow> 2 powi (ulp_exponent x + 52) \<le> \<bar>x\<bar>"
  unfolding ulp_exponent_def using ulp_exponent_from_lower [of "- 1074" "\<bar>x\<bar>"] by simp

lemma ulp_exponent_least:
  "- 1074 \<le> e \<Longrightarrow> 971 \<le> e \<or> \<bar>x\<bar> < 2 powi (e + 53) \<Longrightarrow> ulp_exponent x \<le> e"
  unfolding ulp_exponent_def by (rule ulp_exponent_from_least)

lemma ulp_exponent_eqI:
  assumes "- 1074 \<le> e" and "e \<le> 971"
    and up: "e < 971 \<Longrightarrow> \<bar>x\<bar> < 2 powi (e + 53)"
    and lo: "- 1074 < e \<Longrightarrow> 2 powi (e + 52) \<le> \<bar>x\<bar>"
  shows "ulp_exponent x = e"
proof (rule antisym)
  from assms(1,2) up show "ulp_exponent x \<le> e"
    by (cases "e < 971") (auto intro: ulp_exponent_least)
next
  show "e \<le> ulp_exponent x"
  proof (rule ccontr)
    assume "\<not> e \<le> ulp_exponent x"
    then have less: "ulp_exponent x < e" by simp
    with assms(2) have "\<bar>x\<bar> < 2 powi (ulp_exponent x + 53)"
      by (intro ulp_exponent_upper) simp
    also from less have "(2::real) powi (ulp_exponent x + 53) \<le> 2 powi (e + 52)"
      by (intro power_int_increasing) auto
    also from less ulp_exponent_range [of x] have "\<dots> \<le> \<bar>x\<bar>"
      by (intro lo) simp
    finally show False by simp
  qed
qed

lemma ulp_exponent_mono:
  assumes "\<bar>x\<bar> \<le> \<bar>y\<bar>"
  shows "ulp_exponent x \<le> ulp_exponent y"
proof (rule ulp_exponent_least)
  show "- 1074 \<le> ulp_exponent y"
    using ulp_exponent_range [of y] by simp
  show "971 \<le> ulp_exponent y \<or> \<bar>x\<bar> < 2 powi (ulp_exponent y + 53)"
    using ulp_exponent_upper [of y] assms by fastforce
qed

text \<open>Rounding a magnitude: it stays a magnitude, and the order is kept.\<close>

lemma round_magnitude_zero: "round_magnitude 0 = 0"
  by (simp add: round_magnitude_def round_half_even_def)

lemma round_magnitude_nonneg:
  assumes "0 \<le> a"
  shows "0 \<le> round_magnitude a"
proof -
  from assms have "0 \<le> a / 2 powi ulp_exponent a" by simp
  then have "round_half_even 0 \<le> round_half_even (a / 2 powi ulp_exponent a)"
    by (rule round_half_even_mono)
  then have "0 \<le> round_half_even (a / 2 powi ulp_exponent a)"
    using round_half_even_of_int [of 0] by simp
  then show ?thesis
    by (simp add: round_magnitude_def Let_def)
qed

lemma round_magnitude_mono:
  assumes "0 \<le> a" and "a \<le> b"
  shows "round_magnitude a \<le> round_magnitude b"
proof -
  let ?ea = "ulp_exponent a" and ?eb = "ulp_exponent b"
  from assms have le: "?ea \<le> ?eb"
    by (intro ulp_exponent_mono) simp
  show ?thesis
  proof (cases "?ea = ?eb")
    case True
    from assms have "a / 2 powi ?eb \<le> b / 2 powi ?eb"
      by (simp add: divide_right_mono)
    then have "round_half_even (a / 2 powi ?eb) \<le> round_half_even (b / 2 powi ?eb)"
      by (rule round_half_even_mono)
    then show ?thesis
      by (simp add: round_magnitude_def Let_def True)
  next
    case False
    with le have less: "?ea < ?eb" by simp
    with ulp_exponent_range [of b] have "?ea < 971" by simp
    then have "\<bar>a\<bar> < 2 powi (?ea + 53)"
      by (rule ulp_exponent_upper)
    with assms have "a / 2 powi ?ea \<le> 2 powi (?ea + 53) / 2 powi ?ea"
      by (simp add: divide_right_mono)
    also have "(2::real) powi (?ea + 53) / 2 powi ?ea = of_int (2 ^ 53)"
      by (simp add: power_int_add)
    finally have "round_half_even (a / 2 powi ?ea) \<le> round_half_even (of_int (2 ^ 53))"
      by (rule round_half_even_mono)
    then have "round_half_even (a / 2 powi ?ea) \<le> 2 ^ 53"
      by (simp only: round_half_even_of_int)
    then have "(of_int (round_half_even (a / 2 powi ?ea)) :: real) \<le> 2 ^ 53"
      by simp
    then have "round_magnitude a \<le> 2 ^ 53 * 2 powi ?ea"
      by (simp add: round_magnitude_def Let_def)
    also have "\<dots> = 2 powi (?ea + 53)"
      by (simp add: power_int_add)
    also from less have "\<dots> \<le> 2 powi (?eb + 52)"
      by (intro power_int_increasing) auto
    finally have upper: "round_magnitude a \<le> 2 powi (?eb + 52)" .
    from less ulp_exponent_range [of a] have "- 1074 < ?eb" by simp
    then have "2 powi (?eb + 52) \<le> \<bar>b\<bar>"
      by (rule ulp_exponent_lower)
    with assms have "2 powi (?eb + 52) / 2 powi ?eb \<le> b / 2 powi ?eb"
      by (simp add: divide_right_mono)
    moreover have "(2::real) powi (?eb + 52) / 2 powi ?eb = of_int (2 ^ 52)"
      by (simp add: power_int_add)
    ultimately have "round_half_even (of_int (2 ^ 52)) \<le> round_half_even (b / 2 powi ?eb)"
      by (intro round_half_even_mono) simp
    then have "2 ^ 52 \<le> round_half_even (b / 2 powi ?eb)"
      by (simp only: round_half_even_of_int)
    then have "(2 ^ 52 :: real) \<le> of_int (round_half_even (b / 2 powi ?eb))"
      by simp
    then have "2 ^ 52 * 2 powi ?eb \<le> round_magnitude b"
      by (simp add: round_magnitude_def Let_def)
    also have "2 ^ 52 * 2 powi ?eb = (2::real) powi (?eb + 52)"
      by (simp add: power_int_add)
    finally show ?thesis using upper by linarith
  qed
qed

lemma round_to_double_mono:
  assumes "x \<le> y"
  shows "float_le (round_to_double x) (round_to_double y)"
proof -
  consider "0 \<le> x" | "x < 0" "0 \<le> y" | "y < 0" by linarith
  then show ?thesis
  proof cases
    case 1
    with assms have "round_magnitude \<bar>x\<bar> \<le> round_magnitude \<bar>y\<bar>"
      by (intro round_magnitude_mono) auto
    with 1 assms show ?thesis
      by (auto simp: round_to_double_def Let_def)
  next
    case 2
    with round_magnitude_nonneg [of "\<bar>x\<bar>"] round_magnitude_nonneg [of "\<bar>y\<bar>"]
    show ?thesis
      by (auto simp: round_to_double_def Let_def round_magnitude_zero)
  next
    case 3
    with assms have "round_magnitude \<bar>y\<bar> \<le> round_magnitude \<bar>x\<bar>"
      by (intro round_magnitude_mono) auto
    with 3 assms show ?thesis
      by (auto simp: round_to_double_def Let_def)
  qed
qed

text \<open>
  Which reals are doubles: an integer of less than 53 bits times a power of two in
  range, so every integer below \<open>2 ^ 53\<close> in magnitude.
\<close>

lemma round_magnitude_dyadic:
  assumes m: "0 \<le> m" "m < 2 ^ 53" and k: "- 1074 \<le> k"
  shows "round_magnitude (of_int m * 2 powi k) = of_int m * 2 powi k"
proof -
  let ?a = "of_int m * (2::real) powi k"
  let ?e = "ulp_exponent ?a"
  from m have "(of_int m :: real) < 2 ^ 53" by simp
  then have "?a < 2 ^ 53 * 2 powi k"
    by (simp add: mult_strict_right_mono)
  also have "\<dots> = 2 powi (k + 53)"
    by (simp add: power_int_add)
  finally have "\<bar>?a\<bar> < 2 powi (k + 53)"
    using m by simp
  with k have le: "?e \<le> k"
    by (intro ulp_exponent_least) auto
  have "?a / 2 powi ?e = of_int m * 2 powi (k - ?e)"
    by (simp add: power_int_diff)
  also from le have "(2::real) powi (k - ?e) = of_int (2 ^ nat (k - ?e))"
    by (simp add: power_int_def)
  finally have q: "?a / 2 powi ?e = of_int (m * 2 ^ nat (k - ?e))"
    by simp
  then have "round_half_even (?a / 2 powi ?e) = m * 2 ^ nat (k - ?e)"
    by (simp only: round_half_even_of_int)
  moreover have "of_int (m * 2 ^ nat (k - ?e)) * 2 powi ?e = ?a"
    unfolding q [symmetric] by simp
  ultimately show ?thesis
    by (simp add: round_magnitude_def Let_def)
qed

lemma is_double_dyadic:
  assumes "\<bar>m\<bar> < 2 ^ 53" and "- 1074 \<le> k" and "k \<le> 971"
  shows "is_double (of_int m * 2 powi k)"
proof -
  let ?x = "of_int m * (2::real) powi k"
  have abs: "\<bar>?x\<bar> = of_int \<bar>m\<bar> * 2 powi k"
    by (simp add: abs_mult)
  from assms have rm: "round_magnitude \<bar>?x\<bar> = \<bar>?x\<bar>"
    unfolding abs by (intro round_magnitude_dyadic) auto
  from assms(1) have "(of_int \<bar>m\<bar> :: real) < 2 ^ 53" by simp
  then have "\<bar>?x\<bar> < 2 ^ 53 * 2 powi k"
    unfolding abs by (simp add: mult_strict_right_mono)
  also from assms(3) have "(2::real) ^ 53 * 2 powi k \<le> 2 ^ 53 * 2 powi 971"
    by (intro mult_left_mono power_int_increasing) auto
  also have "\<dots> = 2 ^ 1024" by simp
  finally have "\<not> 2 ^ 1024 \<le> \<bar>?x\<bar>" by simp
  with rm show ?thesis
    by (simp add: is_double_def round_to_double_def Let_def)
qed

lemma is_double_of_int: "\<bar>n\<bar> < 2 ^ 53 \<Longrightarrow> is_double (of_int n)"
  using is_double_dyadic [of n 0] by simp

lemma round_to_double_of_int: "\<bar>n\<bar> < 2 ^ 53 \<Longrightarrow> round_to_double (of_int n) = Fin (of_int n)"
  using is_double_of_int [of n] by (simp add: is_double_def)

text \<open>Rounding a given number, once the exponent of its last place is known.\<close>

lemma round_to_double_eq:
  assumes "- 1074 \<le> e" and "e \<le> 971"
    and "e < 971 \<Longrightarrow> \<bar>x\<bar> < 2 powi (e + 53)"
    and "- 1074 < e \<Longrightarrow> 2 powi (e + 52) \<le> \<bar>x\<bar>"
  shows "round_to_double x =
     (let m = of_int (round_half_even (\<bar>x\<bar> / 2 powi e)) * 2 powi e
      in if 2 ^ 1024 \<le> m then (if 0 < x then PInf else NInf)
         else Fin (if 0 \<le> x then m else - m))"
proof -
  from assms have "ulp_exponent \<bar>x\<bar> = e"
    by (intro ulp_exponent_eqI) simp_all
  then show ?thesis
    by (simp add: round_to_double_def round_magnitude_def Let_def)
qed

section \<open>Built-ins on lists\<close>

lemma foldl_min_eq: "foldl (\<lambda>m item. if item < m then item else m) x xs = Min (set (x # xs))"
proof (induction xs arbitrary: x)
  case Nil
  show ?case by simp
next
  case (Cons y ys)
  have "(if y < x then y else x) = min x y" by (auto simp: min_def)
  with Cons.IH [of "if y < x then y else x"] show ?case
    by (cases "ys = []") (simp_all add: min.assoc)
qed

lemma foldl_max_eq: "foldl (\<lambda>m item. if m < item then item else m) x xs = Max (set (x # xs))"
proof (induction xs arbitrary: x)
  case Nil
  show ?case by simp
next
  case (Cons y ys)
  have "(if x < y then y else x) = max x y" by (auto simp: max_def)
  with Cons.IH [of "if x < y then y else x"] show ?case
    by (cases "ys = []") (simp_all add: max.assoc)
qed

lemma py_min_eq: "xs \<noteq> [] \<Longrightarrow> py_min xs = Inr (Min (set xs))"
  by (cases xs) (simp_all only: py_min.simps foldl_min_eq, simp)

lemma py_max_eq: "xs \<noteq> [] \<Longrightarrow> py_max xs = Inr (Max (set xs))"
  by (cases xs) (simp_all only: py_max.simps foldl_max_eq, simp)

lemma py_getitem_last:
  assumes "xs \<noteq> []"
  shows "py_getitem xs (- 1) = Inr (last xs)"
proof -
  from assms obtain n where n: "length xs = Suc n"
    by (cases xs) auto
  then have "nat (int (length xs) + - 1) = length xs - 1"
    and "- int (length xs) \<le> - 1" and "\<not> (0 \<le> (- 1 :: int))"
    by simp_all
  with assms show ?thesis
    by (simp add: py_getitem_def last_conv_nth)
qed

lemma py_getitem_empty: "py_getitem [] i = Inl IndexError"
  by (simp add: py_getitem_def)

section \<open>The statistics\<close>

lemma zero_mA: "round_to_double 0 = Fin 0"
  using round_to_double_of_int [of 0] by simp

lemma round_between:
  assumes "is_double lo" and "is_double hi" and "lo \<le> x" and "x \<le> hi"
  shows "\<exists>a. round_to_double x = Fin a \<and> lo \<le> a \<and> a \<le> hi"
proof -
  from assms(1,3) have lower: "float_le (Fin lo) (round_to_double x)"
    using round_to_double_mono [of lo x] by (simp add: is_double_def)
  from assms(2,4) have upper: "float_le (round_to_double x) (Fin hi)"
    using round_to_double_mono [of x hi] by (simp add: is_double_def)
  from lower upper show ?thesis
    by (cases "round_to_double x") simp_all
qed

lemma sum_list_lower: "\<forall>x\<in>set xs. lo \<le> x \<Longrightarrow> lo * real (length xs) \<le> sum_list xs"
  by (induction xs) (auto simp: algebra_simps)

lemma sum_list_upper: "\<forall>x\<in>set xs. x \<le> hi \<Longrightarrow> sum_list xs \<le> hi * real (length xs)"
  by (induction xs) (auto simp: algebra_simps)

lemma mean_between_min_max:
  assumes "xs \<noteq> []"
  shows "Min (set xs) \<le> sum_list xs / real (length xs)"
    and "sum_list xs / real (length xs) \<le> Max (set xs)"
proof -
  from assms have n: "0 < real (length xs)" by simp
  have "Min (set xs) * real (length xs) \<le> sum_list xs"
    by (rule sum_list_lower) simp
  with n show "Min (set xs) \<le> sum_list xs / real (length xs)"
    by (simp add: pos_le_divide_eq)
  have "sum_list xs \<le> Max (set xs) * real (length xs)"
    by (rule sum_list_upper) simp
  with n show "sum_list xs / real (length xs) \<le> Max (set xs)"
    by (simp add: pos_divide_le_eq)
qed

lemma float_of_int_length:
  assumes "length xs < 2 ^ 53"
  shows "float_of_int (int (length xs)) = Inr (real (length xs))"
proof -
  from assms have "\<bar>int (length xs)\<bar> < 2 ^ 53" by simp
  then have "round_to_double (of_int (int (length xs))) = Fin (of_int (int (length xs)))"
    by (rule round_to_double_of_int)
  then show ?thesis
    by (simp add: float_of_int_def)
qed

lemma get_min_current_mA_eq:
  "xs \<noteq> [] \<Longrightarrow> current_measurements s = xs \<Longrightarrow>
    get_min_current_mA s = Inr (round_to_double (Min (set xs) / 1000))"
  by (simp add: get_min_current_mA_def py_min_eq float_truediv_def float_div_def)

lemma get_max_current_mA_eq:
  "xs \<noteq> [] \<Longrightarrow> current_measurements s = xs \<Longrightarrow>
    get_max_current_mA s = Inr (round_to_double (Max (set xs) / 1000))"
  by (simp add: get_max_current_mA_def py_max_eq float_truediv_def float_div_def)

lemma get_average_current_mA_eq:
  "xs \<noteq> [] \<Longrightarrow> length xs < 2 ^ 53 \<Longrightarrow> current_measurements s = xs \<Longrightarrow>
    get_average_current_mA s = Inr (float_div (float_div (py_sum xs) (real (length xs))) 1000)"
  by (simp add: get_average_current_mA_def float_of_int_length float_truediv_def)

lemma min_le_max_current:
  assumes "current_measurements s \<noteq> []"
  shows "\<exists>lo hi. get_min_current_mA s = Inr lo \<and> get_max_current_mA s = Inr hi \<and> float_le lo hi"
proof -
  let ?xs = "current_measurements s"
  from assms have "Min (set ?xs) \<le> Max (set ?xs)" by simp
  then have "float_le (round_to_double (Min (set ?xs) / 1000)) (round_to_double (Max (set ?xs) / 1000))"
    by (intro round_to_double_mono) simp
  with assms show ?thesis
    by (simp add: get_min_current_mA_eq get_max_current_mA_eq)
qed

lemma min_average_max_exact:
  assumes ne: "current_measurements s \<noteq> []"
    and doubles: "list_all is_double (current_measurements s)"
    and len: "length (current_measurements s) < 2 ^ 53"
    and exact: "py_sum (current_measurements s) = Fin (sum_list (current_measurements s))"
  shows "\<exists>lo av hi.
      get_min_current_mA s = Inr lo \<and> get_average_current_mA s = Inr av \<and>
      get_max_current_mA s = Inr hi \<and> float_le lo av \<and> float_le av hi"
proof -
  let ?xs = "current_measurements s"
  let ?mean = "sum_list ?xs / real (length ?xs)"
  from ne have "Min (set ?xs) \<in> set ?xs" and "Max (set ?xs) \<in> set ?xs"
    by simp_all
  with doubles have "is_double (Min (set ?xs))" and "is_double (Max (set ?xs))"
    by (simp_all add: list_all_iff)
  with mean_between_min_max [OF ne]
  obtain a where a: "round_to_double ?mean = Fin a"
    and bounds: "Min (set ?xs) \<le> a" "a \<le> Max (set ?xs)"
    using round_between [of "Min (set ?xs)" "Max (set ?xs)" ?mean] by blast
  from ne len exact a
  have av: "get_average_current_mA s = Inr (round_to_double (a / 1000))"
    by (simp add: get_average_current_mA_eq float_div_def)
  from bounds have "float_le (round_to_double (Min (set ?xs) / 1000)) (round_to_double (a / 1000))"
    and "float_le (round_to_double (a / 1000)) (round_to_double (Max (set ?xs) / 1000))"
    by (simp_all add: round_to_double_mono)
  with ne av show ?thesis
    by (simp add: get_min_current_mA_eq get_max_current_mA_eq)
qed

lemma float_of_int_positive:
  assumes "1 \<le> n" and "float_of_int n = Inr d"
  shows "1 \<le> d"
proof -
  from assms(1) have "float_le (round_to_double 1) (round_to_double (of_int n))"
    by (intro round_to_double_mono) simp
  moreover have "round_to_double 1 = Fin 1"
    using round_to_double_of_int [of 1] by simp
  ultimately show ?thesis
    using assms(2) by (cases "round_to_double (of_int n)") (simp_all add: float_of_int_def)
qed

lemma float_of_int_error: "float_of_int n = Inl e \<Longrightarrow> e = OverflowError"
  by (cases "round_to_double (of_int n)") (simp_all add: float_of_int_def)

lemma get_average_current_mA_divides:
  assumes "current_measurements s \<noteq> []"
  shows "get_average_current_mA s \<noteq> Inl ZeroDivisionError"
proof (cases "float_of_int (int (length (current_measurements s)))")
  case (Inl e)
  then have "e = OverflowError" by (rule float_of_int_error)
  with Inl show ?thesis
    by (simp add: get_average_current_mA_def)
next
  case (Inr d)
  from assms have "1 \<le> int (length (current_measurements s))"
    by (cases "current_measurements s") simp_all
  then have "1 \<le> d" using Inr by (rule float_of_int_positive)
  with Inr show ?thesis
    by (simp add: get_average_current_mA_def float_truediv_def)
qed

lemma nonempty_buffer_reads:
  assumes "current_measurements s \<noteq> []"
  shows "(\<exists>lo. get_min_current_mA s = Inr lo) \<and> (\<exists>hi. get_max_current_mA s = Inr hi) \<and>
    get_average_current_mA s \<noteq> Inl ZeroDivisionError \<and> (\<exists>s'. reset_measurements s = Inr s')"
  using assms get_average_current_mA_divides [of s]
  by (simp add: get_min_current_mA_eq get_max_current_mA_eq reset_measurements_def
      py_getitem_last)

lemma empty_buffer_raises:
  "current_measurements s = [] \<Longrightarrow> get_min_current_mA s = Inl ValueError"
  "current_measurements s = [] \<Longrightarrow> get_max_current_mA s = Inl ValueError"
  "current_measurements s = [] \<Longrightarrow> get_average_current_mA s = Inl ZeroDivisionError"
  "current_measurements s = [] \<Longrightarrow> reset_measurements s = Inl IndexError"
  by (simp_all add: get_min_current_mA_def get_max_current_mA_def get_average_current_mA_def
      reset_measurements_def py_getitem_def float_of_int_def float_truediv_def zero_mA)

section \<open>Worked values\<close>

lemma py_sum_1000_2000_3000: "py_sum [1000, 2000, 3000] = Fin 6000"
proof -
  have "round_to_double 1000 = Fin 1000" "round_to_double 3000 = Fin 3000"
    "round_to_double 6000 = Fin 6000"
    using round_to_double_of_int [of 1000] round_to_double_of_int [of 3000]
      round_to_double_of_int [of 6000] by simp_all
  then show ?thesis
    by (simp add: py_sum_def float_add_def)
qed

lemma doubles_1000_2000_3000: "list_all is_double [1000, 2000, 3000]"
  using is_double_of_int [of 1000] is_double_of_int [of 2000] is_double_of_int [of 3000]
  by simp

lemma example_statistics:
  "get_min_current_mA (supply_with [1000, 2000, 3000]) = Inr (Fin 1)"
  "get_max_current_mA (supply_with [1000, 2000, 3000]) = Inr (Fin 3)"
  "get_average_current_mA (supply_with [1000, 2000, 3000]) = Inr (Fin 2)"
proof -
  have rd: "round_to_double 1 = Fin 1" "round_to_double 2 = Fin 2" "round_to_double 3 = Fin 3"
    "round_to_double 2000 = Fin 2000"
    using round_to_double_of_int [of 1] round_to_double_of_int [of 2]
      round_to_double_of_int [of 3] round_to_double_of_int [of 2000] by simp_all
  show "get_min_current_mA (supply_with [1000, 2000, 3000]) = Inr (Fin 1)"
    by (simp add: get_min_current_mA_def supply_with_def float_truediv_def float_div_def rd)
  show "get_max_current_mA (supply_with [1000, 2000, 3000]) = Inr (Fin 3)"
    by (simp add: get_max_current_mA_def supply_with_def float_truediv_def float_div_def rd)
  show "get_average_current_mA (supply_with [1000, 2000, 3000]) = Inr (Fin 2)"
    by (simp add: get_average_current_mA_def supply_with_def float_truediv_def float_div_def
        float_of_int_def py_sum_1000_2000_3000 rd)
qed

text \<open>The double nearest to one tenth, added three times.\<close>

lemma tenth_is_double: "is_double (3602879701896397 / 2 ^ 55)"
  using is_double_dyadic [of 3602879701896397 "- 55"] by simp

lemma two_tenths_is_double: "is_double (3602879701896397 / 2 ^ 54)"
  using is_double_dyadic [of 3602879701896397 "- 54"] by simp

lemma py_sum_three_tenths:
  "py_sum [3602879701896397 / 2 ^ 55, 3602879701896397 / 2 ^ 55, 3602879701896397 / 2 ^ 55] =
    Fin (1351079888211149 / 2 ^ 52)"
proof -
  define d :: real where "d = 3602879701896397 / 2 ^ 55"
  have "round_to_double (0 + d) = Fin d"
    using tenth_is_double by (simp add: is_double_def d_def)
  moreover have "round_to_double (d + d) = Fin (3602879701896397 / 2 ^ 54)"
    using two_tenths_is_double by (simp add: is_double_def d_def)
  moreover have "round_to_double (3602879701896397 / 2 ^ 54 + d) = Fin (1351079888211149 / 2 ^ 52)"
    unfolding d_def
    by (subst round_to_double_eq [where e = "- 54"]) (simp_all add: round_half_even_def)
  ultimately have "py_sum [d, d, d] = Fin (1351079888211149 / 2 ^ 52)"
    by (simp only: py_sum_def foldl.simps float_add_def pyfloat.case)
  then show ?thesis
    by (simp only: d_def)
qed

lemma mean_three_tenths:
  "round_to_double (1351079888211149 / 2 ^ 52 / 3) = Fin (7205759403792795 / 2 ^ 56)"
  by (subst round_to_double_eq [where e = "- 56"]) (simp_all add: round_half_even_def)

lemma mean_three_tenths_mA:
  "round_to_double (7205759403792795 / 2 ^ 56 / 1000) = Fin (3689348814741911 / 2 ^ 65)"
  by (subst round_to_double_eq [where e = "- 66"]) (simp_all add: round_half_even_def)

lemma tenth_mA:
  "round_to_double (3602879701896397 / 2 ^ 55 / 1000) = Fin (7378697629483821 / 2 ^ 66)"
  by (subst round_to_double_eq [where e = "- 66"]) (simp_all add: round_half_even_def)

lemma three_is_double: "round_to_double 3 = Fin 3"
  using round_to_double_of_int [of 3] by simp

lemma average_three_tenths:
  "get_average_current_mA
     (supply_with [3602879701896397 / 2 ^ 55, 3602879701896397 / 2 ^ 55, 3602879701896397 / 2 ^ 55]) =
     Inr (Fin (3689348814741911 / 2 ^ 65))"
proof -
  let ?xs = "[3602879701896397 / 2 ^ 55, 3602879701896397 / 2 ^ 55, 3602879701896397 / 2 ^ 55] :: real list"
  have "float_div (py_sum ?xs) 3 = Fin (7205759403792795 / 2 ^ 56)"
    by (simp only: py_sum_three_tenths float_div_def pyfloat.case mean_three_tenths)
  then have "float_div (float_div (py_sum ?xs) 3) 1000 = Fin (3689348814741911 / 2 ^ 65)"
    by (simp only: float_div_def pyfloat.case mean_three_tenths_mA)
  moreover have "real (length ?xs) = 3" by simp
  ultimately show ?thesis
    using get_average_current_mA_eq [of ?xs "supply_with ?xs"]
    by (simp add: supply_with_def)
qed

section \<open>Mode switch\<close>

lemma py_int_truncates:
  assumes "py_int (Fin p) = Inr mv"
  shows "\<bar>real_of_int mv\<bar> \<le> \<bar>p\<bar> \<and> \<bar>p\<bar> < \<bar>real_of_int mv\<bar> + 1 \<and> 0 \<le> real_of_int mv * p"
proof (cases "0 \<le> p")
  case True
  with assms have mv: "mv = \<lfloor>p\<rfloor>" by (simp add: py_int_def)
  from True have "0 \<le> \<lfloor>p\<rfloor>" by simp
  with True show ?thesis
    unfolding mv by (simp add: abs_if)
next
  case False
  with assms have mv: "mv = \<lceil>p\<rceil>" by (simp add: py_int_def)
  from False have neg: "real_of_int \<lceil>p\<rceil> \<le> 0"
    by (simp add: ceiling_le_iff)
  have near: "real_of_int \<lceil>p\<rceil> - 1 < p" "p \<le> real_of_int \<lceil>p\<rceil>"
    using ceiling_correct [of p] by simp_all
  from False neg have "0 \<le> real_of_int \<lceil>p\<rceil> * p"
    by (intro mult_nonpos_nonpos) simp_all
  moreover from False neg near have "\<bar>real_of_int \<lceil>p\<rceil>\<bar> \<le> \<bar>p\<bar>"
    and "\<bar>p\<bar> < \<bar>real_of_int \<lceil>p\<rceil>\<bar> + 1"
    by linarith+
  ultimately show ?thesis
    unfolding mv by simp
qed

lemma setIsSupply_finite:
  assumes "float_mul v 1000 = Fin p"
  shows "setIsSupply v is_supply s =
    ([Set_source_voltage (if 0 \<le> p then \<lfloor>p\<rfloor> else \<lceil>p\<rceil>),
      if is_supply then Use_source_meter else Use_ampere_meter], Inr s)"
  using assms by (simp add: setIsSupply_def py_int_def)

lemma setIsSupply_infinite:
  assumes "float_mul v 1000 = PInf \<or> float_mul v 1000 = NInf"
  shows "setIsSupply v is_supply s = ([], Inl OverflowError)"
  using assms by (auto simp: setIsSupply_def py_int_def)

lemma three_volts: "float_mul 3 1000 = Fin 3000"
  using round_to_double_of_int [of 3000] by (simp add: float_mul_def)

text \<open>
  A product with a fraction: 3.0009765625 V is 3000.9765625 mV, and 3000 is programmed,
  not 3001.
\<close>

lemma three_volts_and_a_bit: "float_mul (3073 / 1024) 1000 = Fin (384125 / 128)"
  using is_double_dyadic [of 384125 "- 7"] by (simp add: float_mul_def is_double_def)

text \<open>
  The double nearest to 1.001 V: its product with 1000 rounds to 1000.9999999999999,
  and 1000 mV is programmed.
\<close>

lemma millivolts_of_1001:
  "float_mul (2254051613498933 / 2 ^ 51) 1000 = Fin (8804889115230207 / 2 ^ 43)"
  unfolding float_mul_def
  by (subst round_to_double_eq [where e = "- 43"]) (simp_all add: round_half_even_def)

lemma setIsSupply_1001:
  "fst (setIsSupply (2254051613498933 / 2 ^ 51) True s) =
     [Set_source_voltage 1000, Use_source_meter]"
  using setIsSupply_finite [OF millivolts_of_1001, of True s] by simp

text \<open>
  The product is rounded before it is cut: for the double nearest to 4.35 V the exact
  product lies below 4350, the double product is 4350, and 4350 mV is programmed.
\<close>

lemma millivolts_of_435: "float_mul (2448832297382707 / 2 ^ 49) 1000 = Fin 4350"
  unfolding float_mul_def
  by (subst round_to_double_eq [where e = "- 40"]) (simp_all add: round_half_even_def)

lemma setIsSupply_435:
  "fst (setIsSupply (2448832297382707 / 2 ^ 49) True s) =
     [Set_source_voltage 4350, Use_source_meter] \<and>
   \<lfloor>2448832297382707 / 2 ^ 49 * 1000 :: real\<rfloor> = 4349"
  using setIsSupply_finite [OF millivolts_of_435, of True s] by simp

section \<open>The loop and the buffer over time\<close>

lemma measurement_loop_empty_poll:
  assumes "measuring s"
  shows "measurement_loop get_samples ([] # polls) s =
    (Get_data # Sleep # fst (measurement_loop get_samples polls s),
     snd (measurement_loop get_samples polls s))"
  using assms by (simp add: loop_body_def split: prod.splits)

lemma measurement_loop_decoded:
  assumes "measuring s" and "read_data \<noteq> []" and "get_samples read_data = Inr (samples, rest)"
  shows "measurement_loop get_samples (read_data # polls) s =
    (Get_data # Get_samples read_data # Sleep #
       fst (measurement_loop get_samples polls
         (s\<lparr>current_measurements := current_measurements s @ samples\<rparr>)),
     snd (measurement_loop get_samples polls
         (s\<lparr>current_measurements := current_measurements s @ samples\<rparr>)))"
  using assms by (simp add: loop_body_def split: prod.splits)

lemma measurement_loop_stopped:
  "\<not> measuring s \<Longrightarrow> measurement_loop get_samples polls s = ([], Returned s)"
  by (cases polls) simp_all

lemma loop_body_nonempty:
  assumes "current_measurements s \<noteq> []" and "loop_body get_samples read_data s = (es, Inr s')"
  shows "current_measurements s' \<noteq> []"
  using assms by (auto simp: loop_body_def split: if_splits sum.splits prod.splits)

lemma step_nonempty:
  assumes "current_measurements s \<noteq> []"
  shows "current_measurements (step get_samples s ev) \<noteq> []"
proof (cases ev)
  case (Loop_iteration read_data)
  obtain es out where body: "loop_body get_samples read_data s = (es, out)"
    by (cases "loop_body get_samples read_data s")
  show ?thesis
  proof (cases out)
    case (Inl e)
    with assms body Loop_iteration show ?thesis by simp
  next
    case (Inr s')
    with assms body have "current_measurements s' \<noteq> []"
      by (auto dest: loop_body_nonempty)
    with assms body Inr Loop_iteration show ?thesis by simp
  qed
next
  case Call_reset
  with assms show ?thesis
    by (simp add: reset_measurements_def split: sum.splits)
next
  case Call_close
  with assms show ?thesis by (simp add: close_def)
next
  case (Call_setIsSupply v is_supply)
  with assms show ?thesis
    by (simp add: setIsSupply_def split: sum.splits)
qed (use assms in \<open>simp_all add: powerOn_def powerOff_def\<close>)

lemma run_nonempty:
  "current_measurements s \<noteq> [] \<Longrightarrow> current_measurements (run get_samples s events) \<noteq> []"
  unfolding run_def
proof (induction events arbitrary: s)
  case Nil
  then show ?case by simp
next
  case (Cons ev events)
  from Cons.prems have "current_measurements (step get_samples s ev) \<noteq> []"
    by (rule step_nonempty)
  then show ?case
    using Cons.IH by simp
qed

lemma init_buffer:
  assumes "init portName devs = (es, Inr s)"
  shows "current_measurements s = [0]"
  using assms by (auto simp: init_def connect_def split: if_splits)

lemma run_example:
  "current_measurements (run unit_decoder (snd (connect ''/dev/ttyACM0''))
        [Loop_iteration ''ab'', Call_get_average, Call_reset, Call_get_min]) = [1500]"
  by (simp add: run_def connect_def loop_body_def unit_decoder_def reset_measurements_def
      py_getitem_def)

section \<open>The claims\<close>

text \<open>
  C1, as stated, fails for the average: the buffer of three samples of one tenth of a
  microampere has the mean one tenth, which over 1000 is the double 0.0001, and
  \<open>get_average_current_mA\<close> returns 0.00010000000000000002, because the sum of the
  three samples is rounded before it is divided.
\<close>

theorem average_not_mean_counterexample:
  "mean [3602879701896397 / 2 ^ 55, 3602879701896397 / 2 ^ 55, 3602879701896397 / 2 ^ 55] =
     3602879701896397 / 2 ^ 55 \<and>
   round_to_double
     (mean [3602879701896397 / 2 ^ 55, 3602879701896397 / 2 ^ 55, 3602879701896397 / 2 ^ 55] / 1000) =
     Fin (7378697629483821 / 2 ^ 66) \<and>
   get_average_current_mA
     (supply_with [3602879701896397 / 2 ^ 55, 3602879701896397 / 2 ^ 55, 3602879701896397 / 2 ^ 55]) =
     Inr (Fin (3689348814741911 / 2 ^ 65)) \<and>
   get_average_current_mA
     (supply_with [3602879701896397 / 2 ^ 55, 3602879701896397 / 2 ^ 55, 3602879701896397 / 2 ^ 55]) \<noteq>
     Inr (round_to_double
       (mean [3602879701896397 / 2 ^ 55, 3602879701896397 / 2 ^ 55, 3602879701896397 / 2 ^ 55] / 1000)) \<and>
   get_average_current_mA
     (supply_with [3602879701896397 / 2 ^ 55, 3602879701896397 / 2 ^ 55, 3602879701896397 / 2 ^ 55]) \<noteq>
     Inr (Fin
       (mean [3602879701896397 / 2 ^ 55, 3602879701896397 / 2 ^ 55, 3602879701896397 / 2 ^ 55] / 1000))"
proof -
  let ?xs = "[3602879701896397 / 2 ^ 55, 3602879701896397 / 2 ^ 55, 3602879701896397 / 2 ^ 55] :: real list"
  have m: "mean ?xs = 3602879701896397 / 2 ^ 55"
    by (simp add: mean_def)
  have rounded: "round_to_double (mean ?xs / 1000) = Fin (7378697629483821 / 2 ^ 66)"
    unfolding m by (rule tenth_mA)
  have differ: "(3689348814741911 / 2 ^ 65 :: real) \<noteq> 7378697629483821 / 2 ^ 66"
    and exact: "(3689348814741911 / 2 ^ 65 :: real) \<noteq> 3602879701896397 / 2 ^ 55 / 1000"
    by simp_all
  from differ have "get_average_current_mA (supply_with ?xs) \<noteq> Inr (round_to_double (mean ?xs / 1000))"
    unfolding rounded average_three_tenths by simp
  moreover from exact have "get_average_current_mA (supply_with ?xs) \<noteq> Inr (Fin (mean ?xs / 1000))"
    unfolding m average_three_tenths by simp
  ultimately show ?thesis
    using m rounded average_three_tenths by blast
qed

text \<open>
  C1, amended. For a buffer that is not empty, \<open>get_min_current_mA\<close> and
  \<open>get_max_current_mA\<close> return the least and the greatest sample over 1000, rounded
  to a double. \<open>get_average_current_mA\<close> returns the mean of the samples, rounded to
  a double, over 1000, whenever the buffer has fewer than \<open>2 ^ 53\<close> samples and their
  sum from the left is exact. For \<open>[1000, 2000, 3000]\<close> the three are 1, 3 and 2.
\<close>

theorem statistics_min_max_rounded_mean:
  assumes "current_measurements s \<noteq> []"
  shows "get_min_current_mA s = Inr (round_to_double (Min (set (current_measurements s)) / 1000)) \<and>
    get_max_current_mA s = Inr (round_to_double (Max (set (current_measurements s)) / 1000)) \<and>
    (length (current_measurements s) < 2 ^ 53 \<and>
       py_sum (current_measurements s) = Fin (sum_list (current_measurements s)) \<longrightarrow>
      get_average_current_mA s =
        Inr (float_div (round_to_double (mean (current_measurements s))) 1000)) \<and>
    get_min_current_mA (supply_with [1000, 2000, 3000]) = Inr (Fin 1) \<and>
    get_max_current_mA (supply_with [1000, 2000, 3000]) = Inr (Fin 3) \<and>
    get_average_current_mA (supply_with [1000, 2000, 3000]) = Inr (Fin 2)"
proof -
  let ?xs = "current_measurements s"
  have "get_average_current_mA s = Inr (float_div (round_to_double (mean ?xs)) 1000)"
    if "length ?xs < 2 ^ 53" and "py_sum ?xs = Fin (sum_list ?xs)"
  proof -
    from assms that(1)
    have "get_average_current_mA s = Inr (float_div (float_div (py_sum ?xs) (real (length ?xs))) 1000)"
      by (rule get_average_current_mA_eq) simp
    with that(2) show ?thesis
      by (simp add: float_div_def mean_def)
  qed
  with assms show ?thesis
    by (simp add: get_min_current_mA_eq get_max_current_mA_eq example_statistics)
qed

theorem statistics_min_max_rounded_mean_witness:
  "current_measurements (supply_with [1000, 2000, 3000]) \<noteq> [] \<and>
   length (current_measurements (supply_with [1000, 2000, 3000])) < 2 ^ 53 \<and>
   py_sum (current_measurements (supply_with [1000, 2000, 3000])) =
     Fin (sum_list (current_measurements (supply_with [1000, 2000, 3000]))) \<and>
   get_min_current_mA (supply_with [1000, 2000, 3000]) =
     Inr (round_to_double (Min (set (current_measurements (supply_with [1000, 2000, 3000]))) / 1000)) \<and>
   get_max_current_mA (supply_with [1000, 2000, 3000]) =
     Inr (round_to_double (Max (set (current_measurements (supply_with [1000, 2000, 3000]))) / 1000)) \<and>
   get_average_current_mA (supply_with [1000, 2000, 3000]) =
     Inr (float_div (round_to_double (mean (current_measurements (supply_with [1000, 2000, 3000])))) 1000)"
proof -
  have cm: "current_measurements (supply_with [1000, 2000, 3000]) = [1000, 2000, 3000]"
    by (simp add: supply_with_def)
  have ne: "current_measurements (supply_with [1000, 2000, 3000]) \<noteq> []"
    by (simp add: cm)
  have hyps: "length (current_measurements (supply_with [1000, 2000, 3000])) < 2 ^ 53 \<and>
    py_sum (current_measurements (supply_with [1000, 2000, 3000])) =
      Fin (sum_list (current_measurements (supply_with [1000, 2000, 3000])))"
    unfolding cm using py_sum_1000_2000_3000 by simp
  with statistics_min_max_rounded_mean [OF ne] ne show ?thesis
    by blast
qed

text \<open>
  C2, as stated, fails in double arithmetic: for three samples of one tenth of a
  microampere the sum rounds up, and the average, 0.00010000000000000002 mA, is above
  the maximum, 0.0001 mA.
\<close>

theorem average_above_max_counterexample:
  "get_max_current_mA
     (supply_with [3602879701896397 / 2 ^ 55, 3602879701896397 / 2 ^ 55, 3602879701896397 / 2 ^ 55]) =
     Inr (Fin (7378697629483821 / 2 ^ 66)) \<and>
   get_average_current_mA
     (supply_with [3602879701896397 / 2 ^ 55, 3602879701896397 / 2 ^ 55, 3602879701896397 / 2 ^ 55]) =
     Inr (Fin (3689348814741911 / 2 ^ 65)) \<and>
   \<not> float_le (Fin (3689348814741911 / 2 ^ 65)) (Fin (7378697629483821 / 2 ^ 66))"
proof (intro conjI)
  let ?xs = "[3602879701896397 / 2 ^ 55, 3602879701896397 / 2 ^ 55, 3602879701896397 / 2 ^ 55] :: real list"
  have "Max (set ?xs) = 3602879701896397 / 2 ^ 55"
    by simp
  then show "get_max_current_mA (supply_with ?xs) = Inr (Fin (7378697629483821 / 2 ^ 66))"
    using get_max_current_mA_eq [of ?xs "supply_with ?xs"] tenth_mA
    by (simp add: supply_with_def)
  have "float_div (py_sum ?xs) 3 = Fin (7205759403792795 / 2 ^ 56)"
    by (simp only: py_sum_three_tenths float_div_def pyfloat.case mean_three_tenths)
  then have "float_div (float_div (py_sum ?xs) 3) 1000 = Fin (3689348814741911 / 2 ^ 65)"
    by (simp only: float_div_def pyfloat.case mean_three_tenths_mA)
  moreover have "real (length ?xs) = 3" by simp
  ultimately show "get_average_current_mA (supply_with ?xs) = Inr (Fin (3689348814741911 / 2 ^ 65))"
    using get_average_current_mA_eq [of ?xs "supply_with ?xs"]
    by (simp add: supply_with_def)
  show "\<not> float_le (Fin (3689348814741911 / 2 ^ 65)) (Fin (7378697629483821 / 2 ^ 66))"
    by simp
qed

text \<open>
  C2, amended. For a buffer that is not empty the minimum is at most the maximum. The
  average lies between them whenever the samples are doubles, fewer than \<open>2 ^ 53\<close>,
  and their running sum is exact (as it is for integer samples of a sum below
  \<open>2 ^ 53\<close>).
\<close>

theorem min_average_max_when_sum_exact:
  assumes "current_measurements s \<noteq> []"
  shows "(\<exists>lo hi. get_min_current_mA s = Inr lo \<and> get_max_current_mA s = Inr hi \<and> float_le lo hi) \<and>
    (list_all is_double (current_measurements s) \<and> length (current_measurements s) < 2 ^ 53 \<and>
       py_sum (current_measurements s) = Fin (sum_list (current_measurements s)) \<longrightarrow>
     (\<exists>lo av hi. get_min_current_mA s = Inr lo \<and> get_average_current_mA s = Inr av \<and>
        get_max_current_mA s = Inr hi \<and> float_le lo av \<and> float_le av hi))"
  using assms min_le_max_current [of s] min_average_max_exact [of s] by blast

theorem min_average_max_when_sum_exact_witness:
  "current_measurements (supply_with [1000, 2000, 3000]) \<noteq> [] \<and>
   list_all is_double (current_measurements (supply_with [1000, 2000, 3000])) \<and>
   length (current_measurements (supply_with [1000, 2000, 3000])) < 2 ^ 53 \<and>
   py_sum (current_measurements (supply_with [1000, 2000, 3000])) =
     Fin (sum_list (current_measurements (supply_with [1000, 2000, 3000]))) \<and>
   (\<exists>lo av hi. get_min_current_mA (supply_with [1000, 2000, 3000]) = Inr lo \<and>
      get_average_current_mA (supply_with [1000, 2000, 3000]) = Inr av \<and>
      get_max_current_mA (supply_with [1000, 2000, 3000]) = Inr hi \<and>
      float_le lo av \<and> float_le av hi)"
proof -
  have cm: "current_measurements (supply_with [1000, 2000, 3000]) = [1000, 2000, 3000]"
    by (simp add: supply_with_def)
  have ne: "current_measurements (supply_with [1000, 2000, 3000]) \<noteq> []"
    by (simp add: cm)
  have hyps: "list_all is_double (current_measurements (supply_with [1000, 2000, 3000])) \<and>
    length (current_measurements (supply_with [1000, 2000, 3000])) < 2 ^ 53 \<and>
    py_sum (current_measurements (supply_with [1000, 2000, 3000])) =
      Fin (sum_list (current_measurements (supply_with [1000, 2000, 3000])))"
    unfolding cm using doubles_1000_2000_3000 py_sum_1000_2000_3000 by simp
  with min_average_max_when_sum_exact [OF ne] ne show ?thesis
    by blast
qed

text \<open>
  C3. On a buffer that is not empty, \<open>reset_measurements\<close> succeeds and leaves the
  one-element buffer holding the last element of the old one; \<open>[1, 2, 3]\<close> becomes \<open>[3]\<close>.
\<close>

theorem reset_measurements_keeps_last:
  assumes "current_measurements s \<noteq> []"
  shows "reset_measurements s = Inr (s\<lparr>current_measurements := [last (current_measurements s)]\<rparr>)"
  using assms by (simp add: reset_measurements_def py_getitem_last)

theorem reset_measurements_keeps_last_witness:
  "current_measurements \<lparr>r = ''/dev/ttyACM0'', current_measurements = [1, 2, 3], measuring = True,
      measurement_thread = Alive\<rparr> \<noteq> [] \<and>
   reset_measurements \<lparr>r = ''/dev/ttyACM0'', current_measurements = [1, 2, 3], measuring = True,
      measurement_thread = Alive\<rparr> =
   Inr \<lparr>r = ''/dev/ttyACM0'', current_measurements = [3], measuring = True,
      measurement_thread = Alive\<rparr>"
  using reset_measurements_keeps_last
    [of "\<lparr>r = ''/dev/ttyACM0'', current_measurements = [1, 2, 3], measuring = True,
      measurement_thread = Alive\<rparr>"]
  by simp

text \<open>
  C4. Without a port name (\<^verbatim>\<open>None\<close> or the empty string) and with no device found,
  the constructor raises \<^verbatim>\<open>PowerError("No PPK2 devices found")\<close>, the class's error for
  "no device found". The only call made before is \<^verbatim>\<open>list_devices\<close>: no handle is
  opened and no thread is started.
\<close>

theorem init_no_device:
  "init None [] = ([List_devices], Inl (PowerError ''No PPK2 devices found'')) \<and>
   init (Some []) [] = ([List_devices], Inl (PowerError ''No PPK2 devices found'')) \<and>
   PPK2_MP p \<notin> set (fst (init None [])) \<and> Thread_start \<notin> set (fst (init None [])) \<and>
   PPK2_MP p \<notin> set (fst (init (Some []) [])) \<and> Thread_start \<notin> set (fst (init (Some []) []))"
  by (simp add: init_def)

text \<open>
  C5. Without a port name and with two or more devices found, the constructor raises
  \<^verbatim>\<open>PowerError("Multiple PPK2 devices found, please specify the portName")\<close>, the
  class's error for an ambiguous selection, after \<^verbatim>\<open>list_devices\<close> alone: none of the
  candidates is opened.
\<close>

theorem init_multiple_devices:
  assumes "2 \<le> length devs" and "portName = None \<or> portName = Some []"
  shows "init portName devs =
    ([List_devices],
     Inl (PowerError ''Multiple PPK2 devices found, please specify the portName''))"
  using assms by (auto simp: init_def)

theorem init_multiple_devices_witness:
  "2 \<le> length [''/dev/ttyACM0'', ''/dev/ttyACM1''] \<and>
   ((None :: string option) = None \<or> (None :: string option) = Some []) \<and>
   init None [''/dev/ttyACM0'', ''/dev/ttyACM1''] =
    ([List_devices],
     Inl (PowerError ''Multiple PPK2 devices found, please specify the portName''))"
  using init_multiple_devices [of "[''/dev/ttyACM0'', ''/dev/ttyACM1'']" None]
  by simp

text \<open>
  C6. Whatever the voltage and the mode asked for, no mode command is issued before
  the voltage is programmed; when the millivolt value exists, the commands are
  \<^verbatim>\<open>set_source_voltage\<close> and then \<^verbatim>\<open>use_source_meter\<close> for supply mode,
  \<^verbatim>\<open>use_ampere_meter\<close> for ammeter mode, and nothing else.
\<close>

theorem setIsSupply_voltage_first:
  "voltage_before_mode (fst (setIsSupply v is_supply s)) \<and>
   (\<forall>mv. py_int (float_mul v 1000) = Inr mv \<longrightarrow>
      fst (setIsSupply v True s) = [Set_source_voltage mv, Use_source_meter] \<and>
      fst (setIsSupply v False s) = [Set_source_voltage mv, Use_ampere_meter])"
  by (cases "py_int (float_mul v 1000)") (simp_all add: setIsSupply_def)

theorem setIsSupply_voltage_first_witness:
  "py_int (float_mul 3 1000) = Inr 3000 \<and>
   voltage_before_mode (fst (setIsSupply 3 True (supply_with [0]))) \<and>
   fst (setIsSupply 3 True (supply_with [0])) = [Set_source_voltage 3000, Use_source_meter] \<and>
   fst (setIsSupply 3 False (supply_with [0])) = [Set_source_voltage 3000, Use_ampere_meter]"
proof -
  have mv: "py_int (float_mul 3 1000) = Inr 3000"
    by (simp add: three_volts py_int_def)
  with setIsSupply_voltage_first [of 3 True "supply_with [0]"] show ?thesis
    by blast
qed

text \<open>
  C7. An object that the constructor returned has the buffer \<open>[0]\<close>, and after any
  sequence of loop iterations (whatever the chunks and the decoder), statistics reads,
  resets, mode switches and closes, the buffer has at least one element. So in every
  such state \<^verbatim>\<open>min\<close> and \<^verbatim>\<open>max\<close> find an item, the average does not divide by
  zero and the reset finds a last element.
\<close>

theorem buffer_never_empty:
  assumes "init portName devs = (es, Inr s)"
  shows "current_measurements s = [0] \<and>
    (\<forall>events. 1 \<le> length (current_measurements (run get_samples s events))) \<and>
    (\<forall>events. (\<exists>lo. get_min_current_mA (run get_samples s events) = Inr lo) \<and>
       (\<exists>hi. get_max_current_mA (run get_samples s events) = Inr hi) \<and>
       get_average_current_mA (run get_samples s events) \<noteq> Inl ZeroDivisionError \<and>
       (\<exists>s'. reset_measurements (run get_samples s events) = Inr s'))"
proof -
  from assms have start: "current_measurements s = [0]"
    by (rule init_buffer)
  then have "current_measurements s \<noteq> []" by simp
  then have ne: "\<forall>events. current_measurements (run get_samples s events) \<noteq> []"
    by (simp add: run_nonempty)
  then have "\<forall>events. 1 \<le> length (current_measurements (run get_samples s events))"
    by (simp add: Suc_le_eq)
  with start ne show ?thesis
    by (simp add: nonempty_buffer_reads)
qed

theorem buffer_never_empty_witness:
  "init (Some ''/dev/ttyACM0'') [] =
     (fst (connect ''/dev/ttyACM0''), Inr (snd (connect ''/dev/ttyACM0''))) \<and>
   current_measurements (snd (connect ''/dev/ttyACM0'')) = [0] \<and>
   1 \<le> length (current_measurements
     (run unit_decoder (snd (connect ''/dev/ttyACM0''))
        [Loop_iteration ''ab'', Call_get_average, Call_reset, Call_get_min]))"
proof -
  have "init (Some ''/dev/ttyACM0'') [] =
     (fst (connect ''/dev/ttyACM0''), Inr (snd (connect ''/dev/ttyACM0'')))"
    by (simp add: init_def)
  with buffer_never_empty [OF this, of unit_decoder] show ?thesis
    by blast
qed

text \<open>
  C8, as stated, fails: with a decoder that raises, the loop does not go on to the
  second chunk. It ends with the exception after \<^verbatim>\<open>get_samples\<close>, with no log entry.
\<close>

theorem decode_failure_counterexample:
  "measurement_loop failing_decoder [''ab'', ''cd''] (supply_with [0]) =
     ([Get_data, Get_samples ''ab''], Raised (DriverError ''malformed chunk'') (supply_with [0]))"
  by (simp add: loop_body_def failing_decoder_def supply_with_def)

text \<open>
  C8, amended. In an iteration whose \<^verbatim>\<open>get_samples\<close> raises on a chunk that is not
  empty, the buffer is unchanged and nothing is logged, and the exception leaves the
  loop: the thread is dead and the polls that follow are never made. What the loop
  does pass over is an empty chunk: it sleeps and polls again.
\<close>

theorem decode_failure_ends_loop:
  assumes "measuring s" and "read_data \<noteq> []" and "get_samples read_data = Inl e"
  shows "measurement_loop get_samples (read_data # polls) s =
      ([Get_data, Get_samples read_data], Raised e s) \<and>
    step get_samples (s\<lparr>measurement_thread := Alive\<rparr>) (Loop_iteration read_data) =
      s\<lparr>measurement_thread := Died e\<rparr> \<and>
    measurement_loop get_samples ([] # polls) s =
      (Get_data # Sleep # fst (measurement_loop get_samples polls s),
       snd (measurement_loop get_samples polls s))"
  using assms by (simp add: loop_body_def split: prod.splits)

theorem decode_failure_ends_loop_witness:
  "measuring (supply_with [0]) \<and> ''ab'' \<noteq> [] \<and>
   failing_decoder ''ab'' = Inl (DriverError ''malformed chunk'') \<and>
   measurement_loop failing_decoder [''ab'', ''cd''] (supply_with [0]) =
      ([Get_data, Get_samples ''ab''], Raised (DriverError ''malformed chunk'') (supply_with [0])) \<and>
   step failing_decoder ((supply_with [0])\<lparr>measurement_thread := Alive\<rparr>) (Loop_iteration ''ab'') =
      (supply_with [0])\<lparr>measurement_thread := Died (DriverError ''malformed chunk'')\<rparr>"
proof -
  have "measuring (supply_with [0])" and "''ab'' \<noteq> []"
    and "failing_decoder ''ab'' = Inl (DriverError ''malformed chunk'')"
    by (simp_all add: supply_with_def failing_decoder_def)
  with decode_failure_ends_loop
    [of "supply_with [0]" "''ab''" failing_decoder "DriverError ''malformed chunk''" "[''cd'']"]
  show ?thesis
    by blast
qed

text \<open>
  C9, as stated, fails: after \<^verbatim>\<open>close\<close> the minimum is still answered (0.0 for the
  initial buffer), and a second \<^verbatim>\<open>close\<close> issues the same three calls and returns.
\<close>

theorem use_after_close_counterexample:
  "get_min_current_mA (snd (close (snd (connect ''/dev/ttyACM0'')))) = Inr (Fin 0) \<and>
   close (snd (close (snd (connect ''/dev/ttyACM0'')))) =
     ([Stop_measuring, Thread_join, Super_close], snd (close (snd (connect ''/dev/ttyACM0''))))"
  by (simp add: close_def connect_def get_min_current_mA_def float_truediv_def float_div_def zero_mA)

text \<open>
  C9, amended. No method looks at the state of the session. The statistics and the
  reset answer after \<^verbatim>\<open>close\<close> as they did before it, from the same buffer, and
  \<^verbatim>\<open>close\<close> on a closed object repeats its three calls and changes nothing.
\<close>

theorem no_lifecycle_check:
  "get_min_current_mA (snd (close s)) = get_min_current_mA s \<and>
   get_max_current_mA (snd (close s)) = get_max_current_mA s \<and>
   get_average_current_mA (snd (close s)) = get_average_current_mA s \<and>
   current_measurements (snd (close s)) = current_measurements s \<and>
   (\<forall>s'. reset_measurements s = Inr s' \<longrightarrow> reset_measurements (snd (close s)) = Inr (snd (close s'))) \<and>
   close (snd (close s)) = ([Stop_measuring, Thread_join, Super_close], snd (close s))"
  by (auto simp: close_def get_min_current_mA_def get_max_current_mA_def
      get_average_current_mA_def reset_measurements_def split: sum.splits)

theorem no_lifecycle_check_witness:
  "reset_measurements (supply_with [1, 2, 3]) = Inr (supply_with [3]) \<and>
   reset_measurements (snd (close (supply_with [1, 2, 3]))) = Inr (snd (close (supply_with [3]))) \<and>
   get_min_current_mA (snd (close (supply_with [1, 2, 3]))) = get_min_current_mA (supply_with [1, 2, 3])"
proof -
  have "reset_measurements (supply_with [1, 2, 3]) = Inr (supply_with [3])"
    by (simp add: reset_measurements_def supply_with_def py_getitem_def)
  with no_lifecycle_check [of "supply_with [1, 2, 3]"] show ?thesis
    by blast
qed

text \<open>
  C10. When \<^verbatim>\<open>v * 1000\<close> is a finite double \<open>p\<close>, the first command of \<^verbatim>\<open>setIsSupply\<close>
  is \<^verbatim>\<open>set_source_voltage(mv)\<close> with \<open>mv\<close> the integer \<^verbatim>\<open>int(p)\<close>: \<open>p\<close> cut off
  toward zero, that is the integer of the sign of \<open>p\<close> with \<open>\<bar>mv\<bar> \<le> \<bar>p\<bar> < \<bar>mv\<bar> + 1\<close>.
\<close>

theorem setIsSupply_truncates_millivolts:
  assumes "float_mul v 1000 = Fin p"
  shows "\<exists>mv. fst (setIsSupply v is_supply s) =
        [Set_source_voltage mv, if is_supply then Use_source_meter else Use_ampere_meter] \<and>
      py_int (float_mul v 1000) = Inr mv \<and>
      mv = (if 0 \<le> p then \<lfloor>p\<rfloor> else \<lceil>p\<rceil>) \<and>
      \<bar>real_of_int mv\<bar> \<le> \<bar>p\<bar> \<and> \<bar>p\<bar> < \<bar>real_of_int mv\<bar> + 1 \<and> 0 \<le> real_of_int mv * p"
proof -
  let ?mv = "if 0 \<le> p then \<lfloor>p\<rfloor> else \<lceil>p\<rceil>"
  from assms have mv: "py_int (float_mul v 1000) = Inr ?mv"
    by (simp add: py_int_def)
  with assms have "py_int (Fin p) = Inr ?mv" by simp
  from py_int_truncates [OF this] mv setIsSupply_finite [OF assms, of is_supply s]
  show ?thesis by simp
qed

theorem setIsSupply_truncates_millivolts_witness:
  "float_mul (3073 / 1024) 1000 = Fin (384125 / 128) \<and>
   fst (setIsSupply (3073 / 1024) True (supply_with [0])) =
     [Set_source_voltage 3000, Use_source_meter] \<and>
   round (384125 / 128 :: real) = 3001"
proof -
  from setIsSupply_truncates_millivolts [OF three_volts_and_a_bit, of True "supply_with [0]"]
  have "fst (setIsSupply (3073 / 1024) True (supply_with [0])) =
     [Set_source_voltage \<lfloor>384125 / 128 :: real\<rfloor>, Use_source_meter]"
    by simp
  moreover have "\<lfloor>384125 / 128 :: real\<rfloor> = 3000" by simp
  moreover have "round (384125 / 128 :: real) = 3001" by (simp add: round_def)
  ultimately show ?thesis
    using three_volts_and_a_bit by simp
qed

end
